theory Spec2Isabelle
  imports Main "HOL-Library.Word" "HOL-Library.Sublist"
begin

section \<open>The C library functions used by appswitch.c\<close>

text \<open>
  A C string is modelled by its content: the list of the bytes before the terminating NUL.
  The terminator itself is the end of the list, so a well-formed C string holds no NUL.
\<close>

definition NUL :: char where
  "NUL = CHR 0x00"

definition is_c_string :: "string \<Rightarrow> bool" where
  "is_c_string s = (NUL \<notin> set s)"

text \<open>The C string that starts a byte buffer: everything before the first NUL.\<close>

definition c_str :: "string \<Rightarrow> string" where
  "c_str buf = takeWhile (\<lambda>c. c \<noteq> NUL) buf"

text \<open>
  \<open>tolower\<close> in the C locale (the program never calls \<open>setlocale\<close>): the 26 ASCII capitals
  are moved to the small letters, every other byte is left alone.
\<close>

definition tolower :: "char \<Rightarrow> char" where
  "tolower c = (let n = (of_char c :: nat) in if 65 \<le> n \<and> n \<le> 90 then char_of (n + 32) else c)"

text \<open>
  \<open>strncasecmp(s1, s2, n)\<close>: compares at most \<open>n\<close> bytes, folded by \<open>tolower\<close>, and
  stops after the terminator of \<open>s1\<close>. Reading at the end of a list reads the terminator,
  whose \<open>tolower\<close> is 0.
\<close>

fun strncasecmp :: "string \<Rightarrow> string \<Rightarrow> nat \<Rightarrow> int" where
  "strncasecmp s1 s2 0 = 0"
| "strncasecmp [] [] (Suc n) = 0"
| "strncasecmp [] (c2 # s2) (Suc n) = 0 - int (of_char (tolower c2))"
| "strncasecmp (c1 # s1) [] (Suc n) = int (of_char (tolower c1))"
| "strncasecmp (c1 # s1) (c2 # s2) (Suc n) =
     (if tolower c1 \<noteq> tolower c2
      then int (of_char (tolower c1)) - int (of_char (tolower c2))
      else strncasecmp s1 s2 n)"

text \<open>
  \<open>strcasestr(s, find)\<close>: the first position of \<open>s\<close> where \<open>find\<close> occurs with case
  ignored, as the rest of \<open>s\<close> from there (the returned pointer), or \<open>None\<close> for the null
  pointer. An empty \<open>find\<close> returns \<open>s\<close> itself. The first byte of \<open>find\<close> is \<open>c\<close> and
  the bytes after it are \<open>needle\<close>.
\<close>

fun strcasestr :: "string \<Rightarrow> string \<Rightarrow> string option" where
  "strcasestr s [] = Some s"
| "strcasestr [] (c # needle) = None"
| "strcasestr (sc # s) (c # needle) =
     (if tolower sc = tolower c \<and> strncasecmp s needle (length needle) = 0
      then Some (sc # s)
      else strcasestr s (c # needle))"

text \<open>\<open>printf\<close>'s \<open>%d\<close>: the decimal digits of a signed integer.\<close>

fun digits10 :: "nat \<Rightarrow> string" where
  "digits10 n = (if n < 10 then [char_of (48 + n)] else digits10 (n div 10) @ [char_of (48 + n mod 10)])"

declare digits10.simps [simp del]

definition fmt_d :: "int \<Rightarrow> string" where
  "fmt_d i = (if i < 0 then CHR ''-'' # digits10 (nat (- i)) else digits10 (nat i))"

section \<open>The window snapshot and the operating system\<close>

text \<open>
  A \<open>CFString\<close> either has a UTF-8 encoding (its bytes are given) or has none (an unpaired
  surrogate). \<open>CFStringGetCString\<close> fills the buffer with the encoding and a terminator, and
  fails when there is no encoding or the buffer is too small for both.
\<close>

datatype cfstring = Encodable string | Unencodable

fun CFStringGetCString :: "cfstring \<Rightarrow> nat \<Rightarrow> string option" where
  "CFStringGetCString Unencodable bufferSize = None"
| "CFStringGetCString (Encodable bytes) bufferSize =
     (if length bytes + 1 \<le> bufferSize then Some (bytes @ [NUL]) else None)"

text \<open>
  One entry of the list \<open>CGWindowListCopyWindowInfo\<close> returns: a dictionary in which the
  keys \<open>kCGWindowOwnerName\<close> and \<open>kCGWindowOwnerPID\<close> may each be absent
  (\<open>CFDictionaryGetValue\<close> then returns NULL). The PID is a \<open>CFNumber\<close> holding a signed
  32-bit integer. An entry of the array may itself be NULL.
\<close>

record window =
  kCGWindowOwnerName :: "cfstring option"
  kCGWindowOwnerPID :: "32 word option"

record ProcessSerialNumber =
  highLongOfPSN :: "32 word"
  lowLongOfPSN :: "32 word"

text \<open>
  What the operating system answers during one run: the window list (\<open>None\<close> is NULL),
  whether \<open>CFArrayCreate\<close> returns an array, and the status and serial number that
  \<open>GetProcessForPID\<close> and \<open>SetFrontProcess\<close> return.
\<close>

record os =
  windowList :: "window option list option"
  keyArrayCreated :: bool
  getProcessForPID :: "32 word \<Rightarrow> 32 word \<times> ProcessSerialNumber"
  setFrontProcess :: "ProcessSerialNumber \<Rightarrow> 32 word"

definition noErr :: "32 word" where
  "noErr = 0"

text \<open>The calls a run makes, in order. Reading entry \<open>i\<close> of the snapshot is logged too.\<close>

datatype call =
    CFArrayCreate
  | CGWindowListCopyWindowInfo
  | CFArrayGetCount
  | CFArrayGetValueAtIndex nat
  | GetProcessForPID "32 word"
  | SetFrontProcess ProcessSerialNumber
  | CFRelease_runningApps
  | CFRelease_keyArray

section \<open>switchToApp\<close>

text \<open>The variables the scan loop writes, and the calls made so far.\<close>

record scan_state =
  pid :: "32 word"
  found :: int
  scan_calls :: "call list"

text \<open>
  The \<open>for\<close> loop of \<open>switchToApp\<close> from index \<open>i\<close> on. \<open>continue\<close> is the recursive call
  at \<open>Suc i\<close>; \<open>break\<close> returns the state.
\<close>

function scan_loop :: "window option list \<Rightarrow> string \<Rightarrow> nat \<Rightarrow> scan_state \<Rightarrow> scan_state" where
  "scan_loop runningApps appName i st =
     (if i < length runningApps then
        (let st1 = st\<lparr>scan_calls := scan_calls st @ [CFArrayGetValueAtIndex i]\<rparr> in
         case runningApps ! i of
           None \<Rightarrow> scan_loop runningApps appName (Suc i) st1
         | Some app \<Rightarrow>
            (case kCGWindowOwnerName app of
               None \<Rightarrow> scan_loop runningApps appName (Suc i) st1
             | Some cfAppName \<Rightarrow>
                (case CFStringGetCString cfAppName 256 of
                   None \<Rightarrow> scan_loop runningApps appName (Suc i) st1
                 | Some currentAppName \<Rightarrow>
                    if strcasestr (c_str currentAppName) appName \<noteq> None then
                      (case kCGWindowOwnerPID app of
                         None \<Rightarrow> scan_loop runningApps appName (Suc i) st1
                       | Some pidNumber \<Rightarrow> st1\<lparr>pid := pidNumber, found := 1\<rparr>)
                    else scan_loop runningApps appName (Suc i) st1)))
      else st)"
  by pat_completeness auto
termination
  by (relation "measure (\<lambda>(runningApps, appName, i, st). length runningApps - i)") auto

declare scan_loop.simps [simp del]

text \<open>What a run leaves behind: the returned value, the text printed, the calls made.\<close>

record run =
  ret :: int
  stdout :: string
  calls :: "call list"

definition cleanup :: "os \<Rightarrow> call list" where
  "cleanup os = CFRelease_runningApps # (if keyArrayCreated os then [CFRelease_keyArray] else [])"

text \<open>The state at the head of the loop: line 32.\<close>

definition scan_start :: scan_state where
  "scan_start =
     \<lparr>pid = 0, found = 0,
      scan_calls = [CFArrayCreate, CGWindowListCopyWindowInfo, CFArrayGetCount]\<rparr>"

text \<open>
  Lines 55 to 80 of \<open>switchToApp\<close>: what follows the loop, from the state the loop ends
  in. The branch that prints the not-found message leaves \<open>found\<close> as the loop set it.
\<close>

definition activate :: "os \<Rightarrow> string \<Rightarrow> scan_state \<Rightarrow> run" where
  "activate os appName st =
     (if found st \<noteq> 0 \<and> 0 <s pid st then
        (case getProcessForPID os (pid st) of
           (err, psn) \<Rightarrow>
             if err = noErr then
               (let err2 = setFrontProcess os psn in
                if err2 = noErr then
                  \<lparr>ret = 1,
                   stdout = ''Switched to: '' @ appName @ '' (PID: '' @ fmt_d (sint (pid st))
                              @ '')'' @ [CHR 0x0A],
                   calls = scan_calls st @ [GetProcessForPID (pid st), SetFrontProcess psn]
                             @ cleanup os\<rparr>
                else
                  \<lparr>ret = 0,
                   stdout = ''Failed to bring application to front (error: ''
                              @ fmt_d (sint err2) @ '')'' @ [CHR 0x0A],
                   calls = scan_calls st @ [GetProcessForPID (pid st), SetFrontProcess psn]
                             @ cleanup os\<rparr>)
             else
               \<lparr>ret = 0,
                stdout = ''Failed to get process serial number (error: ''
                           @ fmt_d (sint err) @ '')'' @ [CHR 0x0A],
                calls = scan_calls st @ [GetProcessForPID (pid st)] @ cleanup os\<rparr>)
      else
        \<lparr>ret = found st,
         stdout = ''Application '' @ [CHR 0x27] @ appName @ [CHR 0x27]
                    @ '' not found or not running'' @ [CHR 0x0A],
         calls = scan_calls st @ cleanup os\<rparr>)"

text \<open>
  \<open>switchToApp\<close>: with no window list it prints and returns at once (the key array is not
  released on that path); otherwise it scans and goes on to the activation.
\<close>

definition switchToApp :: "os \<Rightarrow> string \<Rightarrow> run" where
  "switchToApp os appName =
     (case windowList os of
        None \<Rightarrow>
          \<lparr>ret = 0,
           stdout = ''Failed to get running applications list'' @ [CHR 0x0A],
           calls = [CFArrayCreate, CGWindowListCopyWindowInfo]\<rparr>
      | Some runningApps \<Rightarrow> activate os appName (scan_loop runningApps appName 0 scan_start))"

section \<open>main\<close>

text \<open>
  \<open>argv\<close> is the argument vector and \<open>argc\<close> its length. With an empty vector \<open>argv[0]\<close>
  is the null pointer, and handing it to \<open>%s\<close> is undefined.
\<close>

datatype fault = NullStringToPrintf

definition usage :: "string \<Rightarrow> string" where
  "usage prog =
     ''Usage: '' @ prog @ '' <app_name>'' @ [CHR 0x0A]
     @ ''Example: '' @ prog @ '' Safari'' @ [CHR 0x0A]
     @ ''Example: '' @ prog @ '' '' @ [CHR 0x22] @ ''Visual Studio Code'' @ [CHR 0x22] @ [CHR 0x0A]"

definition main :: "os \<Rightarrow> string list \<Rightarrow> fault + run" where
  "main os argv =
     (if length argv \<noteq> 2 then
        (case argv of
           [] \<Rightarrow> Inl NullStringToPrintf
         | prog # _ \<Rightarrow> Inr \<lparr>ret = 1, stdout = usage prog, calls = []\<rparr>)
      else
        (let r = switchToApp os (argv ! 1) in
         if ret r \<noteq> 0 then Inr (r\<lparr>ret := 0\<rparr>) else Inr (r\<lparr>ret := 1\<rparr>)))"

section \<open>Vocabulary of the properties\<close>

text \<open>
  The test of lines 42 to 44 on one owner name: the conversion into the 256-byte buffer
  succeeds and \<open>strcasestr\<close> finds the fragment in the converted name.
\<close>

definition owner_matches :: "cfstring \<Rightarrow> string \<Rightarrow> bool" where
  "owner_matches cfAppName appName =
     (case CFStringGetCString cfAppName 256 of
        None \<Rightarrow> False
      | Some currentAppName \<Rightarrow> strcasestr (c_str currentAppName) appName \<noteq> None)"

text \<open>
  The fragment is a case-insensitive substring of a name: after folding both with
  \<open>tolower\<close>, the name is some bytes, then the fragment, then some bytes.
\<close>

definition ci_substring :: "string \<Rightarrow> string \<Rightarrow> bool" where
  "ci_substring frag name = sublist (map tolower frag) (map tolower name)"

text \<open>The owner name as the scan reads it: the C string left in the 256-byte buffer.\<close>

definition converted_name :: "cfstring \<Rightarrow> string option" where
  "converted_name n = map_option c_str (CFStringGetCString n 256)"

text \<open>
  The process identifier of an entry the scan can stop at: the entry is not NULL, its owner
  name is present, converts and contains the fragment, and its PID value is present.
\<close>

definition selectable_pid :: "string \<Rightarrow> window option \<Rightarrow> 32 word option" where
  "selectable_pid frag e =
     (case e of
        None \<Rightarrow> None
      | Some w \<Rightarrow>
         (case kCGWindowOwnerName w of
            None \<Rightarrow> None
          | Some n \<Rightarrow>
             (case converted_name n of
                None \<Rightarrow> None
              | Some name \<Rightarrow> if ci_substring frag name then kCGWindowOwnerPID w else None)))"

text \<open>The whole owner name of an entry, as the OS holds it, contains the fragment.\<close>

definition owner_name_contains :: "string \<Rightarrow> window option \<Rightarrow> bool" where
  "owner_name_contains frag e =
     (case e of
        None \<Rightarrow> False
      | Some w \<Rightarrow>
         (case kCGWindowOwnerName w of
            Some (Encodable name) \<Rightarrow> ci_substring frag name
          | _ \<Rightarrow> False))"

text \<open>The indices of the snapshot a run has read, and the calls that activate a process.\<close>

fun examined :: "call list \<Rightarrow> nat list" where
  "examined [] = []"
| "examined (CFArrayGetValueAtIndex i # cs) = i # examined cs"
| "examined (c # cs) = examined cs"

fun is_activation :: "call \<Rightarrow> bool" where
  "is_activation (GetProcessForPID p) = True"
| "is_activation (SetFrontProcess psn) = True"
| "is_activation c = False"

fun is_SetFrontProcess :: "call \<Rightarrow> bool" where
  "is_SetFrontProcess (SetFrontProcess psn) = True"
| "is_SetFrontProcess c = False"

fun looked_up :: "call list \<Rightarrow> 32 word list" where
  "looked_up [] = []"
| "looked_up (GetProcessForPID p # cs) = p # looked_up cs"
| "looked_up (c # cs) = looked_up cs"

text \<open>The scan state after entry \<open>i\<close> has been fetched.\<close>

definition read_entry :: "nat \<Rightarrow> scan_state \<Rightarrow> scan_state" where
  "read_entry i st = st\<lparr>scan_calls := scan_calls st @ [CFArrayGetValueAtIndex i]\<rparr>"

text \<open>
  Fixtures for concrete runs: a window entry with a name and a PID, and an operating system
  that returns the given list and accepts both the translation of the PID and the foreground
  request.
\<close>

definition entry :: "string \<Rightarrow> 32 word option \<Rightarrow> window option" where
  "entry name p = Some \<lparr>kCGWindowOwnerName = Some (Encodable name), kCGWindowOwnerPID = p\<rparr>"

definition accepting_os :: "window option list option \<Rightarrow> os" where
  "accepting_os wl =
     \<lparr>windowList = wl, keyArrayCreated = True,
      getProcessForPID = (\<lambda>p. (noErr, \<lparr>highLongOfPSN = 0, lowLongOfPSN = p\<rparr>)),
      setFrontProcess = (\<lambda>psn. noErr)\<rparr>"

definition snapshot_missing_pid :: "window option list" where
  "snapshot_missing_pid = [entry ''Safari'' None, entry ''Safari Helper'' (Some 501)]"

definition snapshot_long_name :: "window option list" where
  "snapshot_long_name = [entry (replicate 256 (CHR ''a'')) (Some 7), entry ''Safari'' (Some 501)]"

section \<open>Case-insensitive search\<close>

lemma of_char_NUL [simp]: "(of_char NUL :: nat) = 0"
  by (simp add: NUL_def)

lemma of_char_eq_0_iff: "(of_char c :: nat) = 0 \<longleftrightarrow> c = NUL"
proof
  assume "(of_char c :: nat) = 0"
  then have "(of_char c :: nat) = of_char NUL" by simp
  then show "c = NUL" by (simp only: of_char_eq_iff)
qed simp

lemma of_char_tolower_eq_0: "(of_char (tolower c) :: nat) = 0 \<longleftrightarrow> c = NUL"
proof (cases "65 \<le> (of_char c :: nat) \<and> (of_char c :: nat) \<le> 90")
  case True
  then have "(of_char (tolower c) :: nat) = of_char c + 32"
    by (simp add: tolower_def)
  with True show ?thesis by (auto simp: of_char_eq_0_iff [symmetric])
next
  case False
  then have "tolower c = c" by (auto simp add: tolower_def)
  then show ?thesis by (simp add: of_char_eq_0_iff)
qed

lemma strncasecmp_prefix:
  "NUL \<notin> set needle \<Longrightarrow>
   (strncasecmp s needle (length needle) = 0) = prefix (map tolower needle) (map tolower s)"
proof (induction needle arbitrary: s)
  case Nil
  then show ?case by simp
next
  case (Cons c needle)
  show ?case
  proof (cases s)
    case Nil
    with Cons.prems show ?thesis by (auto simp add: of_char_tolower_eq_0)
  next
    case (Cons sc s')
    with Cons.prems Cons.IH [of s'] show ?thesis by auto
  qed
qed

lemma strcasestr_iff:
  "is_c_string frag \<Longrightarrow> (strcasestr s frag \<noteq> None) = ci_substring frag s"
  unfolding is_c_string_def ci_substring_def
proof (induction s frag rule: strcasestr.induct)
  case (1 s)
  then show ?case by simp
next
  case (2 c needle)
  then show ?case by simp
next
  case (3 sc s c needle)
  then show ?case
    by (auto simp: strncasecmp_prefix sublist_Cons_right)
qed

lemma strcasestr_None_iff:
  "is_c_string frag \<Longrightarrow> (strcasestr s frag = None) = (\<not> ci_substring frag s)"
  using strcasestr_iff [of frag s] by blast

lemma strcasestr_Some_iff:
  "is_c_string frag \<Longrightarrow> (\<exists>y. strcasestr s frag = Some y) = ci_substring frag s"
  using strcasestr_iff [of frag s] by auto

section \<open>The scan loop, one entry at a time\<close>

lemma scan_loop_end: "\<not> i < length apps \<Longrightarrow> scan_loop apps a i st = st"
  by (simp add: scan_loop.simps)

lemma scan_loop_skip:
  assumes "is_c_string a" "i < length apps" "selectable_pid a (apps ! i) = None"
  shows "scan_loop apps a i st = scan_loop apps a (Suc i) (read_entry i st)"
  using assms
  by (subst scan_loop.simps)
     (auto simp: selectable_pid_def converted_name_def read_entry_def strcasestr_None_iff Let_def
           split: option.splits if_splits)

lemma scan_loop_hit:
  assumes "is_c_string a" "i < length apps" "selectable_pid a (apps ! i) = Some p"
  shows "scan_loop apps a i st = (read_entry i st)\<lparr>pid := p, found := 1\<rparr>"
  using assms
  by (subst scan_loop.simps)
     (auto simp: selectable_pid_def converted_name_def read_entry_def strcasestr_None_iff Let_def
           split: option.splits if_splits)

text \<open>
  The test of lines 42 to 44 decides the loop at an entry that has an owner name and a PID
  value: the loop stops there when the test holds and goes on when it does not.
\<close>

lemma scan_loop_owner_matches:
  assumes "i < length apps" "apps ! i = Some w"
    and "kCGWindowOwnerName w = Some n" "kCGWindowOwnerPID w = Some p"
  shows "scan_loop apps a i st =
         (if owner_matches n a then (read_entry i st)\<lparr>pid := p, found := 1\<rparr>
          else scan_loop apps a (Suc i) (read_entry i st))"
  using assms
  by (subst scan_loop.simps)
     (auto simp: owner_matches_def read_entry_def Let_def split: option.splits)

lemma examined_append: "examined (cs @ ds) = examined cs @ examined ds"
  by (induction cs rule: examined.induct) simp_all

lemma examined_reads: "examined (map CFArrayGetValueAtIndex js) = js"
  by (induction js) simp_all

lemma scan_loop_none:
  assumes "is_c_string a"
    and "\<forall>j. i \<le> j \<and> j < length apps \<longrightarrow> selectable_pid a (apps ! j) = None"
  shows "scan_loop apps a i st =
         st\<lparr>scan_calls := scan_calls st @ map CFArrayGetValueAtIndex [i..<length apps]\<rparr>"
  using assms(2)
proof (induction "length apps - i" arbitrary: i st)
  case 0
  then show ?case by (simp add: scan_loop_end)
next
  case (Suc d)
  then have lt: "i < length apps" by simp
  with Suc.prems have "selectable_pid a (apps ! i) = None" by simp
  then have "scan_loop apps a i st = scan_loop apps a (Suc i) (read_entry i st)"
    using assms(1) lt by (rule scan_loop_skip [rotated 2])
  also have "\<dots> = (read_entry i st)\<lparr>scan_calls := scan_calls (read_entry i st)
                       @ map CFArrayGetValueAtIndex [Suc i..<length apps]\<rparr>"
    using Suc.hyps(2) Suc.prems by (intro Suc.hyps(1)) auto
  also have "\<dots> = st\<lparr>scan_calls := scan_calls st @ map CFArrayGetValueAtIndex [i..<length apps]\<rparr>"
    using lt by (simp add: read_entry_def upt_conv_Cons)
  finally show ?case .
qed

lemma scan_loop_first:
  assumes "is_c_string a"
    and "k < length apps"
    and "selectable_pid a (apps ! k) = Some p"
  shows "i \<le> k \<Longrightarrow> \<forall>j. i \<le> j \<and> j < k \<longrightarrow> selectable_pid a (apps ! j) = None \<Longrightarrow>
         scan_loop apps a i st =
         st\<lparr>scan_calls := scan_calls st @ map CFArrayGetValueAtIndex [i..<Suc k],
            pid := p, found := 1\<rparr>"
proof (induction "k - i" arbitrary: i st)
  case 0
  then have "i = k" by simp
  then show ?case
    using scan_loop_hit [OF assms(1) assms(2) assms(3), of st]
    by (simp add: read_entry_def)
next
  case (Suc d)
  then have lt: "i < k" by simp
  then have il: "i < length apps" using assms(2) by simp
  from Suc.prems lt have "selectable_pid a (apps ! i) = None" by simp
  then have "scan_loop apps a i st = scan_loop apps a (Suc i) (read_entry i st)"
    using assms(1) il by (rule scan_loop_skip [rotated 2])
  also have "\<dots> = (read_entry i st)\<lparr>scan_calls := scan_calls (read_entry i st)
                       @ map CFArrayGetValueAtIndex [Suc i..<Suc k], pid := p, found := 1\<rparr>"
    using Suc.hyps(2) Suc.prems lt by (intro Suc.hyps(1)) auto
  also have "\<dots> = st\<lparr>scan_calls := scan_calls st @ map CFArrayGetValueAtIndex [i..<Suc k],
                       pid := p, found := 1\<rparr>"
    using lt by (simp add: read_entry_def upt_conv_Cons)
  finally show ?case .
qed

lemma scan_loop_step:
  assumes "i < length apps"
  shows "scan_loop apps a i st = scan_loop apps a (Suc i) (read_entry i st)
       \<or> (\<exists>p. scan_loop apps a i st = (read_entry i st)\<lparr>pid := p, found := 1\<rparr>)"
  using assms scan_loop.simps [of apps a i st]
  by (auto simp: Let_def read_entry_def split: option.splits if_splits)

lemma scan_loop_filter:
  assumes "\<And>j. \<not> P (CFArrayGetValueAtIndex j)"
  shows "filter P (scan_calls (scan_loop apps a i st)) = filter P (scan_calls st)"
proof (induction "length apps - i" arbitrary: i st)
  case 0
  then show ?case by (simp add: scan_loop_end)
next
  case (Suc d)
  then have lt: "i < length apps" by simp
  have rd: "filter P (scan_calls (read_entry i st)) = filter P (scan_calls st)"
    by (simp add: read_entry_def assms)
  from scan_loop_step [OF lt, of a st] show ?case
  proof
    assume "scan_loop apps a i st = scan_loop apps a (Suc i) (read_entry i st)"
    moreover have "filter P (scan_calls (scan_loop apps a (Suc i) (read_entry i st)))
                   = filter P (scan_calls (read_entry i st))"
      using Suc.hyps(2) by (intro Suc.hyps(1)) simp
    ultimately show ?thesis using rd by simp
  next
    assume "\<exists>p. scan_loop apps a i st = (read_entry i st)\<lparr>pid := p, found := 1\<rparr>"
    then show ?thesis using rd by auto
  qed
qed

lemma filter_cleanup [simp]:
  "filter is_activation (cleanup os) = []" "filter is_SetFrontProcess (cleanup os) = []"
  "examined (cleanup os) = []"
  by (simp_all add: cleanup_def)

lemma c_str_buffer: "c_str (bytes @ [NUL]) = takeWhile (\<lambda>c. c \<noteq> NUL) bytes"
  by (induction bytes) (simp_all add: c_str_def)

lemma ci_substring_c_str:
  assumes "ci_substring frag (c_str (bytes @ [NUL]))"
  shows "ci_substring frag bytes"
proof -
  have "sublist (map tolower (takeWhile (\<lambda>c. c \<noteq> NUL) bytes)) (map tolower bytes)"
    by (rule map_mono_sublist) (rule sublist_takeWhile)
  with assms show ?thesis
    unfolding ci_substring_def c_str_buffer by (rule sublist_order.order_trans)
qed

lemma not_contains_not_selectable:
  assumes "\<not> owner_name_contains frag e"
  shows "selectable_pid frag e = None"
proof (rule ccontr)
  assume "selectable_pid frag e \<noteq> None"
  then obtain w n name where e: "e = Some w" and n: "kCGWindowOwnerName w = Some n"
    and c: "converted_name n = Some name" and s: "ci_substring frag name"
    by (auto simp: selectable_pid_def split: option.splits if_splits)
  from c obtain bytes where b: "n = Encodable bytes" and nm: "name = c_str (bytes @ [NUL])"
    by (cases n) (auto simp: converted_name_def split: if_splits)
  from s nm have "ci_substring frag bytes" by (simp add: ci_substring_c_str)
  with e n b have "owner_name_contains frag e" by (simp add: owner_name_contains_def)
  with assms show False by simp
qed

lemma switchToApp_no_selectable:
  assumes "is_c_string appName" "windowList os = Some apps"
    and "\<forall>j<length apps. selectable_pid appName (apps ! j) = None"
  shows "switchToApp os appName =
     \<lparr>ret = 0,
      stdout = ''Application '' @ [CHR 0x27] @ appName @ [CHR 0x27]
                 @ '' not found or not running'' @ [CHR 0x0A],
      calls = [CFArrayCreate, CGWindowListCopyWindowInfo, CFArrayGetCount]
                @ map CFArrayGetValueAtIndex [0..<length apps] @ cleanup os\<rparr>"
  using assms(2) scan_loop_none [OF assms(1), of 0 apps] assms(3)
  by (simp add: switchToApp_def activate_def scan_start_def)

lemma switchToApp_front_once:
  "length (filter is_SetFrontProcess (calls (switchToApp os appName))) \<le> 1"
  by (simp add: switchToApp_def activate_def scan_start_def Let_def scan_loop_filter
        split: option.splits prod.splits)

section \<open>The run after the scan\<close>

lemma looked_up_append: "looked_up (cs @ ds) = looked_up cs @ looked_up ds"
  by (induction cs rule: looked_up.induct) simp_all

lemma looked_up_reads: "looked_up (map CFArrayGetValueAtIndex js) = []"
  by (induction js) simp_all

lemma filter_activation_reads: "filter is_activation (map CFArrayGetValueAtIndex js) = []"
  by (induction js) simp_all

lemma looked_up_cleanup [simp]: "looked_up (cleanup os) = []"
  by (simp add: cleanup_def)

lemma switchToApp_first_selectable:
  assumes "is_c_string appName" "windowList os = Some apps" "k < length apps"
    and "selectable_pid appName (apps ! k) = Some p"
    and "\<forall>j<k. selectable_pid appName (apps ! j) = None"
  shows "switchToApp os appName =
         activate os appName
           (scan_start\<lparr>scan_calls := scan_calls scan_start @ map CFArrayGetValueAtIndex [0..<Suc k],
                       pid := p, found := 1\<rparr>)"
  using assms(2) scan_loop_first [OF assms(1) assms(3) assms(4), of 0 scan_start] assms(5)
  by (simp add: switchToApp_def)

lemma scan_loop_null_entry:
  assumes "k < length apps"
    and "\<And>st. scan_loop apps a k st = scan_loop apps a (Suc k) (read_entry k st)"
  shows "scan_loop (apps[k := None]) a i st = scan_loop apps a i st"
proof (induction "length apps - i" arbitrary: i st)
  case 0
  then show ?case by (simp add: scan_loop_end)
next
  case (Suc d)
  then have lt: "i < length apps" by simp
  have ih: "scan_loop (apps[k := None]) a (Suc i) (read_entry i st)
            = scan_loop apps a (Suc i) (read_entry i st)"
    using Suc.hyps(2) by (intro Suc.hyps(1)) simp
  show ?case
  proof (cases "i = k")
    case True
    have "scan_loop (apps[k := None]) a k st
          = scan_loop (apps[k := None]) a (Suc k) (read_entry k st)"
      using assms(1) by (subst scan_loop.simps) (simp add: read_entry_def)
    with True ih assms(2) show ?thesis by simp
  next
    case False
    then have same: "apps[k := None] ! i = apps ! i" by simp
    show ?thesis
      using lt same ih scan_loop.simps [of "apps[k := None]" a i st] scan_loop.simps [of apps a i st]
      by (auto simp: read_entry_def Let_def split: option.splits)
  qed
qed

section \<open>The claims\<close>

text \<open>
  C1, as the code has it. Let entry \<open>k\<close> be the first entry of the snapshot that the scan can
  stop at: it is not NULL, its owner name converts into the 256-byte buffer and contains the
  fragment, and it has a PID value. Then the loop ends with \<open>found = 1\<close> and \<open>pid\<close> set to
  the PID of entry \<open>k\<close>, the run reads the entries \<open>0\<close> to \<open>k\<close> and no later one, and the
  only PID handed to \<open>GetProcessForPID\<close> is that one (none when it is not positive).
\<close>

theorem switchToApp_stops_at_first_selectable:
  assumes "is_c_string appName" "windowList os = Some apps" "k < length apps"
    and "selectable_pid appName (apps ! k) = Some p"
    and "\<forall>j<k. selectable_pid appName (apps ! j) = None"
  shows "scan_loop apps appName 0 scan_start =
           scan_start\<lparr>scan_calls := scan_calls scan_start @ map CFArrayGetValueAtIndex [0..<Suc k],
                      pid := p, found := 1\<rparr>
       \<and> examined (calls (switchToApp os appName)) = [0..<Suc k]
       \<and> looked_up (calls (switchToApp os appName)) = (if 0 <s p then [p] else [])"
proof -
  let ?st = "scan_start\<lparr>scan_calls := scan_calls scan_start @ map CFArrayGetValueAtIndex [0..<Suc k],
                       pid := p, found := 1\<rparr>"
  have scan: "scan_loop apps appName 0 scan_start = ?st"
    using scan_loop_first [OF assms(1) assms(3) assms(4), of 0 scan_start] assms(5) by simp
  have run: "switchToApp os appName = activate os appName ?st"
    using assms by (rule switchToApp_first_selectable)
  have ex: "examined (calls (activate os appName ?st)) = [0..<Suc k]"
    by (simp add: activate_def scan_start_def Let_def examined_append examined_reads
             del: upt_Suc split: prod.splits)
  have lk: "looked_up (calls (activate os appName ?st)) = (if 0 <s p then [p] else [])"
    by (simp add: activate_def scan_start_def Let_def looked_up_append looked_up_reads
             del: upt_Suc split: prod.splits)
  from scan run ex lk show ?thesis by simp
qed

text \<open>
  A run of C1: the first window of Safari has no PID value, so the scan stops at the second
  entry, after reading both.
\<close>

theorem switchToApp_stops_at_first_selectable_witness:
  "is_c_string ''safari''
   \<and> windowList (accepting_os (Some snapshot_missing_pid)) = Some snapshot_missing_pid
   \<and> 1 < length snapshot_missing_pid
   \<and> selectable_pid ''safari'' (snapshot_missing_pid ! 1) = Some 501
   \<and> selectable_pid ''safari'' (snapshot_missing_pid ! 0) = None
   \<and> scan_loop snapshot_missing_pid ''safari'' 0 scan_start =
        \<lparr>pid = 501, found = 1,
         scan_calls = [CFArrayCreate, CGWindowListCopyWindowInfo, CFArrayGetCount,
                       CFArrayGetValueAtIndex 0, CFArrayGetValueAtIndex 1]\<rparr>
   \<and> examined (calls (switchToApp (accepting_os (Some snapshot_missing_pid)) ''safari'')) = [0, 1]
   \<and> looked_up (calls (switchToApp (accepting_os (Some snapshot_missing_pid)) ''safari'')) = [501]"
proof -
  have h1: "is_c_string ''safari''" by code_simp
  have h2: "windowList (accepting_os (Some snapshot_missing_pid)) = Some snapshot_missing_pid"
    by (simp add: accepting_os_def)
  have h3: "1 < length snapshot_missing_pid" by (simp add: snapshot_missing_pid_def)
  have h4: "selectable_pid ''safari'' (snapshot_missing_pid ! 1) = Some 501" by code_simp
  have h5: "\<forall>j<1. selectable_pid ''safari'' (snapshot_missing_pid ! j) = None" by code_simp
  have h0: "selectable_pid ''safari'' (snapshot_missing_pid ! 0) = None" by code_simp
  have w: "(0::32 word) <s 501" by code_simp
  from switchToApp_stops_at_first_selectable [OF h1 h2 h3 h4 h5] h1 h2 h3 h4 h0 w
  show ?thesis by (simp add: upt_rec scan_start_def)
qed

text \<open>
  C1 as the claim states it fails on two snapshots. In the first, entry 0 is a window of
  Safari without a PID value; in the second, entry 0 has an owner name of 256 bytes. In both
  entry 0 is the first entry whose owner name contains the fragment, yet the scan does not
  stop there: it reads entry 1 as well and records the PID of entry 1.
\<close>

theorem first_owner_match_not_selected:
  "owner_name_contains ''safari'' (snapshot_missing_pid ! 0)
   \<and> examined (calls (switchToApp (accepting_os (Some snapshot_missing_pid)) ''safari'')) = [0, 1]
   \<and> pid (scan_loop snapshot_missing_pid ''safari'' 0 scan_start) = 501
   \<and> snapshot_missing_pid ! 1 = entry ''Safari Helper'' (Some 501)
   \<and> owner_name_contains ''a'' (snapshot_long_name ! 0)
   \<and> examined (calls (switchToApp (accepting_os (Some snapshot_long_name)) ''a'')) = [0, 1]
   \<and> pid (scan_loop snapshot_long_name ''a'' 0 scan_start) = 501
   \<and> snapshot_long_name ! 1 = entry ''Safari'' (Some 501)"
  by code_simp

text \<open>
  C2, as the code has it. For an owner name whose UTF-8 encoding is at most 255 bytes long and
  a fragment that is a C string, the test of lines 42 to 44 holds exactly when the fragment
  is a case-insensitive substring of the converted name (the encoding up to its first NUL,
  which is the whole encoding when it holds no NUL). The empty fragment matches every such
  name, \<open>safari\<close> matches \<open>Safari\<close> and \<open>code\<close> matches \<open>Visual Studio Code\<close>.
  Folding is that of \<open>tolower\<close> in the C locale: the ASCII letters.
\<close>

theorem owner_matches_iff_ci_substring:
  assumes "is_c_string frag" "length bytes \<le> 255"
  shows "owner_matches (Encodable bytes) frag = ci_substring frag (c_str bytes)
       \<and> (is_c_string bytes \<longrightarrow> owner_matches (Encodable bytes) frag = ci_substring frag bytes)
       \<and> owner_matches (Encodable bytes) []
       \<and> owner_matches (Encodable ''Safari'') ''safari''
       \<and> owner_matches (Encodable ''Visual Studio Code'') ''code''"
proof -
  have buf: "c_str (bytes @ [NUL]) = c_str bytes"
    by (simp add: c_str_buffer) (simp add: c_str_def)
  have m: "owner_matches (Encodable bytes) frag = ci_substring frag (c_str bytes)"
    using assms by (simp add: owner_matches_def buf strcasestr_Some_iff)
  have whole: "is_c_string bytes \<Longrightarrow> c_str bytes = bytes"
    by (auto simp: is_c_string_def c_str_def)
  have e: "owner_matches (Encodable bytes) []"
    using assms(2) by (simp add: owner_matches_def)
  have s: "owner_matches (Encodable ''Safari'') ''safari''" by code_simp
  have v: "owner_matches (Encodable ''Visual Studio Code'') ''code''" by code_simp
  from m whole e s v show ?thesis by simp
qed

theorem owner_matches_iff_ci_substring_witness:
  "is_c_string ''studio'' \<and> length ''Visual Studio Code'' \<le> 255
   \<and> is_c_string ''Visual Studio Code''
   \<and> owner_matches (Encodable ''Visual Studio Code'') ''studio''
   \<and> ci_substring ''studio'' ''Visual Studio Code''
   \<and> owner_matches (Encodable ''Visual Studio Code'') []"
proof -
  have h1: "is_c_string ''studio''" by code_simp
  have h2: "length ''Visual Studio Code'' \<le> 255" by simp
  have h3: "is_c_string ''Visual Studio Code''" by code_simp
  have c: "ci_substring ''studio'' ''Visual Studio Code''" by code_simp
  from owner_matches_iff_ci_substring [OF h1 h2] h1 h2 h3 c show ?thesis by blast
qed

text \<open>
  C2 as the claim states it fails for an owner name of 256 bytes: the fragment \<open>a\<close> is a
  substring of the name \<open>aaa...a\<close>, and the test of lines 42 to 44 is false, since the name
  and its terminator do not fit the buffer.
\<close>

theorem long_owner_name_never_matches:
  "ci_substring ''a'' (replicate 256 (CHR ''a''))
   \<and> \<not> owner_matches (Encodable (replicate 256 (CHR ''a''))) ''a''
   \<and> \<not> owner_matches (Encodable (replicate 256 (CHR ''a''))) []"
  by code_simp

text \<open>
  C3 fails on the code. The only window belongs to Safari and carries the PID 0. The loop
  sets \<open>found\<close> to 1; the test \<open>found && pid > 0\<close> fails, so the not-found message is
  printed and no activation call is made, but \<open>found\<close> is returned as it is and \<open>main\<close>
  exits with status 0.
\<close>

theorem main_exit_0_without_activation:
  "main (accepting_os (Some [entry ''Safari'' (Some 0)])) [''appswitch'', ''Safari'']
   = Inr \<lparr>ret = 0,
          stdout = ''Application '' @ [CHR 0x27] @ ''Safari'' @ [CHR 0x27]
                     @ '' not found or not running'' @ [CHR 0x0A],
          calls = [CFArrayCreate, CGWindowListCopyWindowInfo, CFArrayGetCount,
                   CFArrayGetValueAtIndex 0, CFRelease_runningApps, CFRelease_keyArray]\<rparr>"
  by code_simp

text \<open>
  C4. When the window list is there and no owner name in it contains the fragment,
  \<open>switchToApp\<close> returns 0, prints the not-found message and makes neither activation call.
\<close>

theorem switchToApp_not_found:
  assumes "is_c_string appName"
    and "windowList os = Some apps"
    and "\<forall>e \<in> set apps. \<not> owner_name_contains appName e"
  shows "ret (switchToApp os appName) = 0
       \<and> stdout (switchToApp os appName)
           = ''Application '' @ [CHR 0x27] @ appName @ [CHR 0x27]
               @ '' not found or not running'' @ [CHR 0x0A]
       \<and> filter is_activation (calls (switchToApp os appName)) = []"
proof -
  have "\<forall>j<length apps. selectable_pid appName (apps ! j) = None"
    using assms(3) by (simp add: not_contains_not_selectable)
  from switchToApp_no_selectable [OF assms(1) assms(2) this]
  show ?thesis by (simp add: filter_activation_reads)
qed

theorem switchToApp_not_found_witness:
  "is_c_string ''Nonexistent''
   \<and> windowList (accepting_os (Some [entry ''Finder'' (Some 100)])) = Some [entry ''Finder'' (Some 100)]
   \<and> \<not> owner_name_contains ''Nonexistent'' (entry ''Finder'' (Some 100))
   \<and> ret (switchToApp (accepting_os (Some [entry ''Finder'' (Some 100)])) ''Nonexistent'') = 0
   \<and> stdout (switchToApp (accepting_os (Some [entry ''Finder'' (Some 100)])) ''Nonexistent'')
       = ''Application '' @ [CHR 0x27] @ ''Nonexistent'' @ [CHR 0x27]
           @ '' not found or not running'' @ [CHR 0x0A]
   \<and> filter is_activation
        (calls (switchToApp (accepting_os (Some [entry ''Finder'' (Some 100)])) ''Nonexistent'')) = []"
proof -
  have h1: "is_c_string ''Nonexistent''" by code_simp
  have h2: "windowList (accepting_os (Some [entry ''Finder'' (Some 100)]))
            = Some [entry ''Finder'' (Some 100)]"
    by (simp add: accepting_os_def)
  have h3: "\<forall>e \<in> set [entry ''Finder'' (Some 100)]. \<not> owner_name_contains ''Nonexistent'' e"
    by code_simp
  from switchToApp_not_found [OF h1 h2 h3] h1 h2 h3 show ?thesis by simp
qed

text \<open>
  C5, as the code has it. When the entry the scan stops at carries a PID that is not
  positive, \<open>switchToApp\<close> prints the not-found message and makes neither activation call.
  An entry without a PID value does not stop the scan, whatever its owner name: the loop
  goes on to the next entry with \<open>pid\<close> and \<open>found\<close> as they were.
\<close>

theorem switchToApp_nonpositive_pid:
  assumes "is_c_string appName" "windowList os = Some apps" "k < length apps"
    and "selectable_pid appName (apps ! k) = Some p"
    and "\<forall>j<k. selectable_pid appName (apps ! j) = None"
    and "\<not> 0 <s p"
  shows "stdout (switchToApp os appName)
           = ''Application '' @ [CHR 0x27] @ appName @ [CHR 0x27]
               @ '' not found or not running'' @ [CHR 0x0A]
       \<and> filter is_activation (calls (switchToApp os appName)) = []
       \<and> (\<forall>j w st. j < length apps \<and> apps ! j = Some w \<and> kCGWindowOwnerPID w = None
             \<longrightarrow> scan_loop apps appName j st = scan_loop apps appName (Suc j) (read_entry j st))"
proof -
  have run: "switchToApp os appName =
         activate os appName
           (scan_start\<lparr>scan_calls := scan_calls scan_start @ map CFArrayGetValueAtIndex [0..<Suc k],
                       pid := p, found := 1\<rparr>)"
    using assms(1-5) by (rule switchToApp_first_selectable)
  have out: "stdout (switchToApp os appName)
           = ''Application '' @ [CHR 0x27] @ appName @ [CHR 0x27]
               @ '' not found or not running'' @ [CHR 0x0A]"
    unfolding run using assms(6) by (simp add: activate_def)
  have act: "filter is_activation (calls (switchToApp os appName)) = []"
    unfolding run using assms(6)
    by (simp add: activate_def scan_start_def filter_activation_reads del: upt_Suc)
  have skip: "scan_loop apps appName j st = scan_loop apps appName (Suc j) (read_entry j st)"
    if "j < length apps" "apps ! j = Some w" "kCGWindowOwnerPID w = None" for j w st
    using that by (subst scan_loop.simps) (simp add: read_entry_def Let_def split: option.splits)
  from out act skip show ?thesis by blast
qed

theorem switchToApp_nonpositive_pid_witness:
  "is_c_string ''Safari''
   \<and> windowList (accepting_os (Some [entry ''Safari'' None, entry ''Safari'' (Some 0)]))
       = Some [entry ''Safari'' None, entry ''Safari'' (Some 0)]
   \<and> 1 < length [entry ''Safari'' None, entry ''Safari'' (Some 0)]
   \<and> selectable_pid ''Safari'' ([entry ''Safari'' None, entry ''Safari'' (Some 0)] ! 1) = Some 0
   \<and> selectable_pid ''Safari'' ([entry ''Safari'' None, entry ''Safari'' (Some 0)] ! 0) = None
   \<and> \<not> (0::32 word) <s 0
   \<and> stdout (switchToApp (accepting_os (Some [entry ''Safari'' None, entry ''Safari'' (Some 0)])) ''Safari'')
       = ''Application '' @ [CHR 0x27] @ ''Safari'' @ [CHR 0x27]
           @ '' not found or not running'' @ [CHR 0x0A]
   \<and> filter is_activation
        (calls (switchToApp (accepting_os (Some [entry ''Safari'' None, entry ''Safari'' (Some 0)])) ''Safari''))
       = []
   \<and> scan_loop [entry ''Safari'' None, entry ''Safari'' (Some 0)] ''Safari'' 0 scan_start
       = scan_loop [entry ''Safari'' None, entry ''Safari'' (Some 0)] ''Safari'' 1 (read_entry 0 scan_start)"
proof -
  let ?apps = "[entry ''Safari'' None, entry ''Safari'' (Some 0)]"
  have h1: "is_c_string ''Safari''" by code_simp
  have h2: "windowList (accepting_os (Some ?apps)) = Some ?apps"
    by (simp add: accepting_os_def)
  have h3: "1 < length ?apps" by simp
  have h4: "selectable_pid ''Safari'' (?apps ! 1) = Some 0" by code_simp
  have h5: "\<forall>j<1. selectable_pid ''Safari'' (?apps ! j) = None" by code_simp
  have h6: "\<not> (0::32 word) <s 0" by simp
  have e0: "?apps ! 0 = Some \<lparr>kCGWindowOwnerName = Some (Encodable ''Safari''), kCGWindowOwnerPID = None\<rparr>"
    by (simp add: entry_def)
  note t = switchToApp_nonpositive_pid [OF h1 h2 h3 h4 h5 h6]
  from t have a: "stdout (switchToApp (accepting_os (Some ?apps)) ''Safari'')
       = ''Application '' @ [CHR 0x27] @ ''Safari'' @ [CHR 0x27]
           @ '' not found or not running'' @ [CHR 0x0A]" by blast
  from t have b: "filter is_activation (calls (switchToApp (accepting_os (Some ?apps)) ''Safari'')) = []"
    by blast
  from t e0 have c: "scan_loop ?apps ''Safari'' 0 scan_start
       = scan_loop ?apps ''Safari'' (Suc 0) (read_entry 0 scan_start)"
    by simp
  have h0: "selectable_pid ''Safari'' (?apps ! 0) = None" by code_simp
  from h1 h2 h3 h4 h0 h6 a b c show ?thesis by simp
qed

text \<open>
  C5 as the claim states it fails when the PID value is missing: the first window of Safari
  has none, its owner name contains the fragment, and the run goes on to the second window,
  activates process 501 and returns success.
\<close>

theorem missing_pid_then_later_match_activates:
  "owner_name_contains ''safari'' (snapshot_missing_pid ! 0)
   \<and> snapshot_missing_pid ! 0 = entry ''Safari'' None
   \<and> ret (switchToApp (accepting_os (Some snapshot_missing_pid)) ''safari'') = 1
   \<and> filter is_activation (calls (switchToApp (accepting_os (Some snapshot_missing_pid)) ''safari''))
       = [GetProcessForPID 501, SetFrontProcess \<lparr>highLongOfPSN = 0, lowLongOfPSN = 501\<rparr>]"
  by code_simp

text \<open>
  C6. When \<open>CGWindowListCopyWindowInfo\<close> returns no list, \<open>switchToApp\<close> returns 0 and prints
  the line \<open>Failed to get running applications list\<close> and nothing else, after the two calls
  that precede the test: no entry is read and no activation call is made.
\<close>

theorem switchToApp_no_list:
  assumes "windowList os = None"
  shows "switchToApp os appName =
           \<lparr>ret = 0,
            stdout = ''Failed to get running applications list'' @ [CHR 0x0A],
            calls = [CFArrayCreate, CGWindowListCopyWindowInfo]\<rparr>"
  using assms by (simp add: switchToApp_def)

theorem switchToApp_no_list_witness:
  "windowList (accepting_os None) = None
   \<and> switchToApp (accepting_os None) ''Safari'' =
           \<lparr>ret = 0,
            stdout = ''Failed to get running applications list'' @ [CHR 0x0A],
            calls = [CFArrayCreate, CGWindowListCopyWindowInfo]\<rparr>"
proof -
  have h: "windowList (accepting_os None) = None" by (simp add: accepting_os_def)
  from switchToApp_no_list [OF h] h show ?thesis by simp
qed

text \<open>
  C7. Called with the program name alone, or with the program name and two or more
  arguments, \<open>main\<close> prints three lines, each built on the program name \<open>argv[0]\<close>: the
  usage line \<open>Usage: argv[0] <app_name>\<close>, the example \<open>Example: argv[0] Safari\<close> and the
  example \<open>Example: argv[0] "Visual Studio Code"\<close>. It exits with status 1 and makes no
  call at all: no enumeration of the windows, no activation.
\<close>

theorem main_usage:
  assumes "length argv = 1 \<or> 2 < length argv"
  shows "main os argv =
           Inr \<lparr>ret = 1,
                stdout = ''Usage: '' @ hd argv @ '' <app_name>'' @ [CHR 0x0A]
                         @ ''Example: '' @ hd argv @ '' Safari'' @ [CHR 0x0A]
                         @ ''Example: '' @ hd argv @ '' '' @ [CHR 0x22] @ ''Visual Studio Code''
                         @ [CHR 0x22] @ [CHR 0x0A],
                calls = []\<rparr>"
  using assms by (cases argv) (auto simp: main_def usage_def)

theorem main_usage_witness:
  "(length [''./switch''] = 1 \<or> 2 < length [''./switch''])
   \<and> main (accepting_os (Some [entry ''Safari'' (Some 501)])) [''./switch'']
       = Inr \<lparr>ret = 1,
              stdout = ''Usage: ./switch <app_name>'' @ [CHR 0x0A]
                       @ ''Example: ./switch Safari'' @ [CHR 0x0A]
                       @ ''Example: ./switch '' @ [CHR 0x22] @ ''Visual Studio Code'' @ [CHR 0x22]
                       @ [CHR 0x0A],
              calls = []\<rparr>
   \<and> (length [''appswitch'', ''Visual'', ''Studio''] = 1 \<or> 2 < length [''appswitch'', ''Visual'', ''Studio''])
   \<and> main (accepting_os (Some [entry ''Safari'' (Some 501)])) [''appswitch'', ''Visual'', ''Studio'']
       = Inr \<lparr>ret = 1,
              stdout = ''Usage: appswitch <app_name>'' @ [CHR 0x0A]
                       @ ''Example: appswitch Safari'' @ [CHR 0x0A]
                       @ ''Example: appswitch '' @ [CHR 0x22] @ ''Visual Studio Code'' @ [CHR 0x22]
                       @ [CHR 0x0A],
              calls = []\<rparr>"
proof -
  have h1: "length [''./switch''] = 1 \<or> 2 < length [''./switch'']" by simp
  have h2: "length [''appswitch'', ''Visual'', ''Studio''] = 1
            \<or> 2 < length [''appswitch'', ''Visual'', ''Studio'']" by simp
  from main_usage [OF h1, of "accepting_os (Some [entry ''Safari'' (Some 501)])"]
       main_usage [OF h2, of "accepting_os (Some [entry ''Safari'' (Some 501)])"] h1 h2
  show ?thesis by simp
qed

text \<open>
  C8, as the code has it. On full success (the scan stops at an entry with a positive PID,
  \<open>GetProcessForPID\<close> and \<open>SetFrontProcess\<close> both return \<open>noErr\<close>), \<open>switchToApp\<close> returns
  1 and prints \<open>Switched to: \<close>, the fragment as the caller gave it, and the PID of the entry
  in decimal.
\<close>

theorem switchToApp_success_message:
  assumes "is_c_string appName" "windowList os = Some apps" "k < length apps"
    and "selectable_pid appName (apps ! k) = Some p"
    and "\<forall>j<k. selectable_pid appName (apps ! j) = None"
    and "0 <s p"
    and "getProcessForPID os p = (noErr, psn)"
    and "setFrontProcess os psn = noErr"
  shows "ret (switchToApp os appName) = 1
       \<and> stdout (switchToApp os appName)
           = ''Switched to: '' @ appName @ '' (PID: '' @ fmt_d (sint p) @ '')'' @ [CHR 0x0A]"
proof -
  have run: "switchToApp os appName =
         activate os appName
           (scan_start\<lparr>scan_calls := scan_calls scan_start @ map CFArrayGetValueAtIndex [0..<Suc k],
                       pid := p, found := 1\<rparr>)"
    using assms(1-5) by (rule switchToApp_first_selectable)
  show ?thesis
    unfolding run using assms(6-8) by (simp add: activate_def)
qed

theorem switchToApp_success_message_witness:
  "is_c_string ''Safari''
   \<and> windowList (accepting_os (Some [entry ''Safari'' (Some 501)])) = Some [entry ''Safari'' (Some 501)]
   \<and> 0 < length [entry ''Safari'' (Some 501)]
   \<and> selectable_pid ''Safari'' ([entry ''Safari'' (Some 501)] ! 0) = Some 501
   \<and> (0::32 word) <s 501
   \<and> getProcessForPID (accepting_os (Some [entry ''Safari'' (Some 501)])) 501
       = (noErr, \<lparr>highLongOfPSN = 0, lowLongOfPSN = 501\<rparr>)
   \<and> setFrontProcess (accepting_os (Some [entry ''Safari'' (Some 501)]))
        \<lparr>highLongOfPSN = 0, lowLongOfPSN = 501\<rparr> = noErr
   \<and> ret (switchToApp (accepting_os (Some [entry ''Safari'' (Some 501)])) ''Safari'') = 1
   \<and> stdout (switchToApp (accepting_os (Some [entry ''Safari'' (Some 501)])) ''Safari'')
       = ''Switched to: Safari (PID: 501)'' @ [CHR 0x0A]"
proof -
  let ?apps = "[entry ''Safari'' (Some 501)]"
  have h1: "is_c_string ''Safari''" by code_simp
  have h2: "windowList (accepting_os (Some ?apps)) = Some ?apps" by (simp add: accepting_os_def)
  have h3: "0 < length ?apps" by simp
  have h4: "selectable_pid ''Safari'' (?apps ! 0) = Some 501" by code_simp
  have h5: "\<forall>j<0. selectable_pid ''Safari'' (?apps ! j) = None" by simp
  have h6: "(0::32 word) <s 501" by code_simp
  have h7: "getProcessForPID (accepting_os (Some ?apps)) 501
            = (noErr, \<lparr>highLongOfPSN = 0, lowLongOfPSN = 501\<rparr>)"
    by (simp add: accepting_os_def)
  have h8: "setFrontProcess (accepting_os (Some ?apps)) \<lparr>highLongOfPSN = 0, lowLongOfPSN = 501\<rparr> = noErr"
    by (simp add: accepting_os_def)
  have d: "fmt_d (sint (501::32 word)) = ''501''" by code_simp
  from switchToApp_success_message [OF h1 h2 h3 h4 h5 h6 h7 h8] h1 h2 h3 h4 h6 h7 h8 d
  show ?thesis by simp
qed

text \<open>
  C8 as the claim states it fails: the name in the success message is the fragment, not the
  owner name of the matched window. With the fragment \<open>code\<close> and the window of
  \<open>Visual Studio Code\<close> the run succeeds and the owner name is nowhere in the text printed.
\<close>

theorem success_message_has_fragment_not_owner_name:
  "ret (switchToApp (accepting_os (Some [entry ''Visual Studio Code'' (Some 501)])) ''code'') = 1
   \<and> stdout (switchToApp (accepting_os (Some [entry ''Visual Studio Code'' (Some 501)])) ''code'')
       = ''Switched to: code (PID: 501)'' @ [CHR 0x0A]
   \<and> \<not> sublist ''Visual Studio Code''
         (stdout (switchToApp (accepting_os (Some [entry ''Visual Studio Code'' (Some 501)])) ''code''))"
  by code_simp

text \<open>
  C9. Whatever the arguments and whatever the operating system answers, a run of \<open>main\<close>
  that returns makes the call \<open>SetFrontProcess\<close> at most once.
\<close>

theorem main_front_once:
  assumes "main os argv = Inr r"
  shows "length (filter is_SetFrontProcess (calls r)) \<le> 1"
proof (cases "length argv = 2")
  case True
  with assms have "calls r = calls (switchToApp os (argv ! 1))"
    by (auto simp: main_def Let_def split: if_splits)
  then show ?thesis using switchToApp_front_once [of os "argv ! 1"] by simp
next
  case False
  with assms show ?thesis
    by (cases argv) (auto simp: main_def)
qed

theorem main_front_once_witness:
  "main (accepting_os (Some [entry ''Safari'' (Some 501), entry ''Safari'' (Some 502)]))
        [''appswitch'', ''Safari'']
   = Inr \<lparr>ret = 0,
          stdout = ''Switched to: Safari (PID: 501)'' @ [CHR 0x0A],
          calls = [CFArrayCreate, CGWindowListCopyWindowInfo, CFArrayGetCount,
                   CFArrayGetValueAtIndex 0, GetProcessForPID 501,
                   SetFrontProcess \<lparr>highLongOfPSN = 0, lowLongOfPSN = 501\<rparr>,
                   CFRelease_runningApps, CFRelease_keyArray]\<rparr>
   \<and> length (filter is_SetFrontProcess
        [CFArrayCreate, CGWindowListCopyWindowInfo, CFArrayGetCount,
         CFArrayGetValueAtIndex 0, GetProcessForPID 501,
         SetFrontProcess \<lparr>highLongOfPSN = 0, lowLongOfPSN = 501\<rparr>,
         CFRelease_runningApps, CFRelease_keyArray]) \<le> 1"
proof -
  have h: "main (accepting_os (Some [entry ''Safari'' (Some 501), entry ''Safari'' (Some 502)]))
        [''appswitch'', ''Safari'']
   = Inr \<lparr>ret = 0,
          stdout = ''Switched to: Safari (PID: 501)'' @ [CHR 0x0A],
          calls = [CFArrayCreate, CGWindowListCopyWindowInfo, CFArrayGetCount,
                   CFArrayGetValueAtIndex 0, GetProcessForPID 501,
                   SetFrontProcess \<lparr>highLongOfPSN = 0, lowLongOfPSN = 501\<rparr>,
                   CFRelease_runningApps, CFRelease_keyArray]\<rparr>"
    by code_simp
  from main_front_once [OF h] h show ?thesis by simp
qed

text \<open>
  C10. An entry whose owner name has no UTF-8 encoding, or one longer than 255 bytes, is
  passed over: when the loop reaches it, it goes on to the next entry with \<open>pid\<close> and
  \<open>found\<close> as they were, whatever the fragment. The whole run returns, prints and calls
  exactly what it does when that entry of the snapshot is NULL.
\<close>

theorem unconvertible_entry_skipped:
  assumes "windowList os = Some apps" "k < length apps" "apps ! k = Some w"
    and "kCGWindowOwnerName w = Some n"
    and "n = Unencodable \<or> (\<exists>bytes. n = Encodable bytes \<and> 255 < length bytes)"
  shows "scan_loop apps appName k st = scan_loop apps appName (Suc k) (read_entry k st)
       \<and> switchToApp os appName = switchToApp (os\<lparr>windowList := Some (apps[k := None])\<rparr>) appName"
proof -
  from assms(5) have conv: "CFStringGetCString n 256 = None" by auto
  have skip: "scan_loop apps appName k st = scan_loop apps appName (Suc k) (read_entry k st)" for st
    using assms(2-4) conv
    by (subst scan_loop.simps) (simp add: read_entry_def Let_def)
  have "scan_loop (apps[k := None]) appName 0 scan_start = scan_loop apps appName 0 scan_start"
    using assms(2) skip by (rule scan_loop_null_entry)
  moreover have "activate (os\<lparr>windowList := Some (apps[k := None])\<rparr>) appName s
                 = activate os appName s" for s
    by (simp add: activate_def cleanup_def Let_def split: prod.splits)
  ultimately
  have "switchToApp os appName = switchToApp (os\<lparr>windowList := Some (apps[k := None])\<rparr>) appName"
    using assms(1) by (simp add: switchToApp_def)
  with skip show ?thesis by simp
qed

theorem unconvertible_entry_skipped_witness:
  "windowList (accepting_os (Some [entry (replicate 256 (CHR ''a'')) (Some 7), entry ''Safari'' (Some 501)]))
     = Some [entry (replicate 256 (CHR ''a'')) (Some 7), entry ''Safari'' (Some 501)]
   \<and> 0 < length [entry (replicate 256 (CHR ''a'')) (Some 7), entry ''Safari'' (Some 501)]
   \<and> 255 < length (replicate 256 (CHR ''a''))
   \<and> ci_substring ''a'' (replicate 256 (CHR ''a''))
   \<and> switchToApp (accepting_os (Some [entry (replicate 256 (CHR ''a'')) (Some 7), entry ''Safari'' (Some 501)])) ''a''
       = switchToApp (accepting_os (Some [None, entry ''Safari'' (Some 501)])) ''a''
   \<and> looked_up (calls (switchToApp (accepting_os (Some [None, entry ''Safari'' (Some 501)])) ''a'')) = [501]"
proof -
  let ?long = "replicate 256 (CHR ''a'')"
  let ?apps = "[entry ?long (Some 7), entry ''Safari'' (Some 501)]"
  have h1: "windowList (accepting_os (Some ?apps)) = Some ?apps" by (simp add: accepting_os_def)
  have h2: "0 < length ?apps" by simp
  have h3: "?apps ! 0 = Some \<lparr>kCGWindowOwnerName = Some (Encodable ?long), kCGWindowOwnerPID = Some 7\<rparr>"
    by (simp add: entry_def)
  have h4: "kCGWindowOwnerName \<lparr>kCGWindowOwnerName = Some (Encodable ?long), kCGWindowOwnerPID = Some 7\<rparr>
            = Some (Encodable ?long)" by simp
  have h5: "Encodable ?long = Unencodable \<or> (\<exists>bytes. Encodable ?long = Encodable bytes \<and> 255 < length bytes)"
    by simp
  have l: "255 < length ?long" by simp
  have c: "ci_substring ''a'' ?long" by code_simp
  have u: "(accepting_os (Some ?apps))\<lparr>windowList := Some (?apps[0 := None])\<rparr>
           = accepting_os (Some [None, entry ''Safari'' (Some 501)])"
    by (simp add: accepting_os_def)
  have r: "looked_up (calls (switchToApp (accepting_os (Some [None, entry ''Safari'' (Some 501)])) ''a'')) = [501]"
    by code_simp
  from unconvertible_entry_skipped [OF h1 h2 h3 h4 h5, of "''a''" scan_start]
  have "switchToApp (accepting_os (Some ?apps)) ''a''
        = switchToApp ((accepting_os (Some ?apps))\<lparr>windowList := Some (?apps[0 := None])\<rparr>) ''a''"
    by blast
  with u have e: "switchToApp (accepting_os (Some ?apps)) ''a''
        = switchToApp (accepting_os (Some [None, entry ''Safari'' (Some 501)])) ''a''"
    by simp
  from h1 h2 l c e r show ?thesis by blast
qed

end
